theory Spec2Isabelle
  imports Main "HOL-Library.Word"
begin

section \<open>The generator \<^verbatim>\<open>folder_to_carray.py\<close>\<close>

text \<open>
  The script walks a folder and writes two text files: \<^verbatim>\<open><output_base>.c\<close> with one
  C string literal per input file and a table of all files, and
  \<^verbatim>\<open><output_base>.h\<close> with the matching declarations.

  Strings are \<^typ>\<open>string\<close>, read as the UTF-8 bytes of the Python text; every character
  the script inspects or replaces is ASCII, so working on bytes gives the same result
  as working on code points. The bytes of an input file are 8-bit words. A text
  file opened for writing is the sequence of strings passed to its \<^verbatim>\<open>write\<close>, in
  order; what ends up on disk is their concatenation.
\<close>

type_synonym byte = "8 word"

type_synonym stream = "string list"

definition contents :: "stream \<Rightarrow> string" where
  "contents f = concat f"

definition backslash :: char where
  "backslash = CHR 0x5C"

text \<open>
  What the script asks of the operating system and of the Python library is an
  input of the model: the answers of \<^verbatim>\<open>os.path.isdir\<close>, \<^verbatim>\<open>os.walk\<close> (the triples it
  yields, in the order it yields them), \<^verbatim>\<open>os.path.join\<close>, \<^verbatim>\<open>os.path.relpath\<close>, the type
  component of \<^verbatim>\<open>mimetypes.guess_type\<close>, reading a file in binary mode
  (\<open>None\<close> when \<^verbatim>\<open>open\<close> or \<^verbatim>\<open>read\<close> raises) and whether a path can be opened for
  writing. The script uses no clock and no random source.
\<close>

record os_env =
  isdir :: "string \<Rightarrow> bool"
  walk :: "string \<Rightarrow> (string \<times> string list \<times> string list) list"
  path_join :: "string \<Rightarrow> string \<Rightarrow> string"
  relpath :: "string \<Rightarrow> string \<Rightarrow> string"
  guess_type :: "string \<Rightarrow> string option"
  read_binary :: "string \<Rightarrow> byte list option"
  open_for_writing :: "string \<Rightarrow> bool"

datatype py_error = OSError

subsection \<open>Helpers (lines 43 to 54)\<close>

text \<open>\<^verbatim>\<open>str.replace(old, new)\<close> where \<^verbatim>\<open>old\<close> and \<^verbatim>\<open>new\<close> are single characters, the
  only way the script calls it.\<close>

fun replace_chr :: "char \<Rightarrow> char \<Rightarrow> string \<Rightarrow> string" where
  "replace_chr old new [] = []"
| "replace_chr old new (c # cs) =
     (if c = old then new # replace_chr old new cs else c # replace_chr old new cs)"

definition to_c_identifier :: "string \<Rightarrow> string" where
  "to_c_identifier path =
     replace_chr (CHR ''.'') (CHR ''_'')
       (replace_chr (CHR ''-'') (CHR ''_'')
         (replace_chr backslash (CHR ''_'')
           (replace_chr (CHR ''/'') (CHR ''_'') path)))"

text \<open>\<^verbatim>\<open>mime if mime else "application/octet-stream"\<close>: the fallback is taken for
  \<^verbatim>\<open>None\<close> and for the empty string.\<close>

definition guess_mime_type :: "os_env \<Rightarrow> string \<Rightarrow> string" where
  "guess_mime_type env file_path =
     (case guess_type env file_path of
        None \<Rightarrow> ''application/octet-stream''
      | Some mime \<Rightarrow> if mime = [] then ''application/octet-stream'' else mime)"

subsection \<open>Formatting numbers\<close>

definition digit_chr :: "nat \<Rightarrow> char" where
  "digit_chr d = ''0123456789abcdef'' ! d"

text \<open>\<^verbatim>\<open>{len(data)}\<close> in an f-string: the decimal digits, no leading zero.\<close>

function str_nat :: "nat \<Rightarrow> string" where
  "str_nat n = (if n < 10 then [digit_chr n] else str_nat (n div 10) @ [digit_chr (n mod 10)])"
  by pat_completeness auto
termination
  by (relation "measure id") auto

declare str_nat.simps [simp del]

text \<open>\<^verbatim>\<open>{b:02x}\<close> for a byte: two lower-case hexadecimal digits.\<close>

definition format_02x :: "byte \<Rightarrow> string" where
  "format_02x b = [digit_chr (unat b div 16), digit_chr (unat b mod 16)]"

definition hex_escape :: "byte \<Rightarrow> string" where
  "hex_escape b = [backslash, CHR ''x''] @ format_02x b"

subsection \<open>\<^verbatim>\<open>file_to_c_array\<close> (lines 56 to 75)\<close>

text \<open>The loop of lines 66 to 70: \<open>i\<close> is the index of the next byte, \<open>line\<close> the
  pending text, \<open>f_c\<close> the output file.\<close>

fun encode_loop :: "nat \<Rightarrow> string \<Rightarrow> stream \<Rightarrow> byte list \<Rightarrow> string \<times> stream" where
  \<open>encode_loop i line f_c [] = (line, f_c)\<close>
| \<open>encode_loop i line f_c (b # bs) =
     (let line = line @ hex_escape b in
      if (i + 1) mod 16 = 0
      then encode_loop (i + 1) ''"'' (f_c @ [line @ ''"\<newline>'']) bs
      else encode_loop (i + 1) line f_c bs)\<close>

text \<open>Lines 65 to 72: the loop and the flush of the remainder.\<close>

definition write_literal :: "stream \<Rightarrow> byte list \<Rightarrow> stream" where
  \<open>write_literal f_c data =
     (case encode_loop 0 ''"'' f_c data of
        (line, f_c) \<Rightarrow> if line \<noteq> ''"'' then f_c @ [line @ ''"\<newline>''] else f_c)\<close>

definition file_to_c_array :: "os_env \<Rightarrow> string \<Rightarrow> string \<Rightarrow> stream \<Rightarrow> py_error + stream" where
  \<open>file_to_c_array env file_path array_name f_c =
     (case read_binary env file_path of
        None \<Rightarrow> Inl OSError
      | Some data \<Rightarrow>
          (let f_c = f_c @ [''// File: '' @ file_path @ ''\<newline>''];
               f_c = f_c @ [''const unsigned char '' @ array_name @ ''[] = \<newline>''];
               f_c = write_literal f_c data;
               f_c = f_c @ ['';\<newline>''];
               f_c = f_c @ [''const unsigned int '' @ array_name @ ''_len = ''
                              @ str_nat (length data) @ '';\<newline>\<newline>'']
           in Inr f_c))\<close>

subsection \<open>The generation pass (lines 80 to 126)\<close>

record gen_state =
  c_stream :: stream
  h_stream :: stream
  file_entries :: "(string \<times> string \<times> string) list"

text \<open>The body of the inner loop, lines 99 to 109. An exception leaves the state as
  it was when it was raised.\<close>

definition convert_file ::
  "os_env \<Rightarrow> string \<Rightarrow> string \<Rightarrow> string \<Rightarrow> gen_state \<Rightarrow> (py_error \<times> gen_state) + gen_state" where
  \<open>convert_file env input_folder root file_name st =
     (let full_path = path_join env root file_name;
          rel_path = replace_chr backslash (CHR ''/'') (relpath env full_path input_folder);
          array_name = to_c_identifier rel_path;
          mime_type = guess_mime_type env full_path
      in case file_to_c_array env full_path array_name (c_stream st) of
           Inl e \<Rightarrow> Inl (e, st)
         | Inr f_c \<Rightarrow>
             Inr \<lparr>c_stream = f_c,
                  h_stream = h_stream st
                    @ [''extern const unsigned char '' @ array_name @ ''[];\<newline>'']
                    @ [''extern const unsigned int '' @ array_name @ ''_len;\<newline>''],
                  file_entries = file_entries st @ [(rel_path, array_name, mime_type)]\<rparr>)\<close>

fun convert_files ::
  "os_env \<Rightarrow> string \<Rightarrow> string \<Rightarrow> string list \<Rightarrow> gen_state \<Rightarrow> (py_error \<times> gen_state) + gen_state" where
  "convert_files env input_folder root [] st = Inr st"
| "convert_files env input_folder root (file_name # files) st =
     (case convert_file env input_folder root file_name st of
        Inl e \<Rightarrow> Inl e
      | Inr st' \<Rightarrow> convert_files env input_folder root files st')"

fun convert_walk ::
  "os_env \<Rightarrow> string \<Rightarrow> (string \<times> string list \<times> string list) list \<Rightarrow> gen_state
     \<Rightarrow> (py_error \<times> gen_state) + gen_state" where
  "convert_walk env input_folder [] st = Inr st"
| "convert_walk env input_folder ((root, dirs, files) # rest) st =
     (case convert_files env input_folder root files st of
        Inl e \<Rightarrow> Inl e
      | Inr st' \<Rightarrow> convert_walk env input_folder rest st')"

text \<open>The loop of lines 113 to 120.\<close>

fun write_table_rows :: "(string \<times> string \<times> string) list \<Rightarrow> stream \<Rightarrow> stream" where
  \<open>write_table_rows [] f_c = f_c\<close>
| \<open>write_table_rows ((rel_path, array_name, mime_type) # rest) f_c =
     (let f_c = f_c @ [''    {"/'' @ rel_path @ ''", '' @ array_name @ '', '' @ array_name
                         @ ''_len, "'' @ mime_type @ ''"},\<newline>''];
          f_c = (if rel_path = ''index.html''
                 then f_c @ [''    {"/", '' @ array_name @ '', '' @ array_name
                               @ ''_len, "'' @ mime_type @ ''"},\<newline>'']
                 else f_c)
      in write_table_rows rest f_c)\<close>

text \<open>The body of the \<^verbatim>\<open>with\<close> statement, lines 83 to 126, on two freshly opened
  files.\<close>

definition generate :: "os_env \<Rightarrow> string \<Rightarrow> (py_error \<times> gen_state) + gen_state" where
  \<open>generate env input_folder =
     (let f_h = [] @ [''// Auto-generated header for embedded files\<newline>\<newline>''];
          f_h = f_h @ [''typedef struct {\<newline>''];
          f_h = f_h @ [''    const char *uri;\<newline>''];
          f_h = f_h @ [''    const unsigned char *data;\<newline>''];
          f_h = f_h @ [''    unsigned int length;\<newline>''];
          f_h = f_h @ [''    const char *content_type;\<newline>''];
          f_h = f_h @ [''} embedded_file_t;\<newline>\<newline>''];
          f_c = [] @ [''// Auto-generated embedded files\<newline>\<newline>''];
          f_c = f_c @ [''#include "embedded_build.h"\<newline>\<newline>'']
      in case convert_walk env input_folder (walk env input_folder)
                \<lparr>c_stream = f_c, h_stream = f_h, file_entries = []\<rparr> of
           Inl e \<Rightarrow> Inl e
         | Inr st \<Rightarrow>
             (let f_c = c_stream st @ [''embedded_file_t embedded_files[] = {\<newline>''];
                  f_c = write_table_rows (file_entries st) f_c;
                  f_c = f_c @ [''};\<newline>\<newline>''];
                  f_c = f_c @ [''int embedded_files_count = sizeof(embedded_files) / sizeof(embedded_files[0]);\<newline>''];
                  f_h = h_stream st @ [''\<newline>extern embedded_file_t embedded_files[];\<newline>''];
                  f_h = f_h @ [''extern int embedded_files_count;\<newline>'']
              in Inr (st\<lparr>c_stream := f_c, h_stream := f_h\<rparr>)))\<close>

subsection \<open>The script as a whole\<close>

text \<open>
  A run ends by falling off the end of the script (exit status 0), by
  \<^verbatim>\<open>sys.exit(n)\<close>, or by an exception nobody catches. \<open>stdout\<close> holds what was
  printed; \<open>artifacts\<close> lists every file the run opened for writing, in the order of
  opening, with what was written to it.
\<close>

datatype status = Success | SysExit nat | Uncaught py_error

record outcome =
  status :: status
  stdout :: stream
  artifacts :: "(string \<times> stream) list"

text \<open>\<^verbatim>\<open>sys.argv\<close> is \<open>prog # args\<close>: the interpreter always supplies the script's
  name. The two files of line 82 are opened left to right.\<close>

definition main :: "os_env \<Rightarrow> string \<Rightarrow> string list \<Rightarrow> outcome" where
  \<open>main env prog args =
     (let argv = prog # args in
      if length argv \<noteq> 3
      then \<lparr>status = SysExit 1,
            stdout = [''Usage: '' @ argv ! 0 @ '' <input_folder> <output_base>\<newline>''],
            artifacts = []\<rparr>
      else
        (let input_folder = argv ! 1;
             output_base = argv ! 2;
             c_file = output_base @ ''.c'';
             h_file = output_base @ ''.h''
         in if \<not> isdir env input_folder
            then \<lparr>status = SysExit 1,
                  stdout = [''Error: Folder '' @ [CHR 0x27] @ input_folder @ [CHR 0x27]
                              @ '' not found\<newline>''],
                  artifacts = []\<rparr>
            else if \<not> open_for_writing env c_file
            then \<lparr>status = Uncaught OSError, stdout = [], artifacts = []\<rparr>
            else if \<not> open_for_writing env h_file
            then \<lparr>status = Uncaught OSError, stdout = [], artifacts = [(c_file, [])]\<rparr>
            else
              (case generate env input_folder of
                 Inl (e, st) \<Rightarrow>
                   \<lparr>status = Uncaught e, stdout = [],
                    artifacts = [(c_file, c_stream st), (h_file, h_stream st)]\<rparr>
               | Inr st \<Rightarrow>
                   \<lparr>status = Success,
                    stdout = [[CHR 0xE2, CHR 0x9C, CHR 0x85] @ '' Generated '' @ c_file
                                @ '' and '' @ h_file @ ''\<newline>''],
                    artifacts = [(c_file, c_stream st), (h_file, h_stream st)]\<rparr>)))\<close>

section \<open>Reading the output\<close>

text \<open>
  The definitions of this section are not part of the script. They say how the
  generated text is read: which rows a table entry stands for, how the bytes of a
  file are cut into segments, and what a C compiler makes of the emitted literal
  and of the emitted numbers.
\<close>

text \<open>One quoted segment on a line of its own.\<close>

definition segment_line :: "byte list \<Rightarrow> string" where
  \<open>segment_line seg = ''"'' @ concat (map hex_escape seg) @ ''"\<newline>''\<close>

text \<open>A list cut into runs of 16, the last one shorter when the length is not a
  multiple of 16; the empty list has no run.\<close>

function group16 :: "'a list \<Rightarrow> 'a list list" where
  "group16 xs = (if xs = [] then [] else take 16 xs # group16 (drop 16 xs))"
  by pat_completeness auto
termination
  by (relation "measure length") auto

declare group16.simps [simp del]

text \<open>The value of a hexadecimal digit, lower case as the script writes it.\<close>

definition hex_val :: "char \<Rightarrow> nat option" where
  "hex_val c =
     (let k = (of_char c :: nat) in
      if 48 \<le> k \<and> k \<le> 57 then Some (k - 48)
      else if 97 \<le> k \<and> k \<le> 102 then Some (k - 87)
      else None)"

text \<open>
  \<open>decode\<close> of the specification: the bytes denoted by a sequence of adjacent C
  string literals, each made of two-digit \<^verbatim>\<open>\x\<close> escapes only and separated by line
  breaks. The flag says whether the reader is inside a literal. Any other text is
  rejected.
\<close>

fun c_literal_bytes :: "bool \<Rightarrow> string \<Rightarrow> byte list option" where
  \<open>c_literal_bytes inside [] = (if inside then None else Some [])\<close>
| \<open>c_literal_bytes False (c # cs) =
     (if c = CHR ''"'' then c_literal_bytes True cs
      else if c = CHR ''\<newline>'' then c_literal_bytes False cs
      else None)\<close>
| \<open>c_literal_bytes True (c # cs) =
     (if c = CHR ''"'' then c_literal_bytes False cs
      else if c = backslash then
        (case cs of
           x # h # l # rest \<Rightarrow>
             (case (x = CHR ''x'', hex_val h, hex_val l) of
                (True, Some a, Some b) \<Rightarrow>
                  map_option ((#) (word_of_nat (16 * a + b))) (c_literal_bytes True rest)
              | _ \<Rightarrow> None)
         | _ \<Rightarrow> None)
      else None)\<close>

text \<open>The number a decimal numeral denotes.\<close>

definition is_digit :: "char \<Rightarrow> bool" where
  "is_digit c = (c \<in> set ''0123456789'')"

definition read_decimal :: "string \<Rightarrow> nat option" where
  "read_decimal s =
     (if s \<noteq> [] \<and> list_all is_digit s
      then Some (foldl (\<lambda>a c. 10 * a + (of_char c - 48)) 0 s)
      else None)"

text \<open>
  The files a walk discovers, as pairs of the directory and the file name, in the
  order in which the two loops of lines 97 and 98 visit them.
\<close>

definition discovered :: "(string \<times> string list \<times> string list) list \<Rightarrow> (string \<times> string) list" where
  "discovered w = concat (map (\<lambda>(root, dirs, files). map (Pair root) files) w)"

text \<open>The triple that lines 99 to 102 compute for one discovered file: relative
  path, symbol name and content type.\<close>

definition file_entry :: "os_env \<Rightarrow> string \<Rightarrow> string \<Rightarrow> string \<Rightarrow> string \<times> string \<times> string" where
  \<open>file_entry env input_folder root file_name =
     (let full_path = path_join env root file_name;
          rel_path = replace_chr backslash (CHR ''/'') (relpath env full_path input_folder)
      in (rel_path, to_c_identifier rel_path, guess_mime_type env full_path))\<close>

text \<open>A table row as text: the served path, the symbol of the array, the symbol of
  its length and the content type.\<close>

definition table_row :: "string \<Rightarrow> string \<Rightarrow> string \<Rightarrow> string" where
  \<open>table_row uri array_name mime_type =
     ''    {"'' @ uri @ ''", '' @ array_name @ '', '' @ array_name @ ''_len, "'' @ mime_type
       @ ''"},\<newline>''\<close>

text \<open>The rows of one entry: its own row, and the alias row for \<^verbatim>\<open>/\<close> when the
  relative path is \<^verbatim>\<open>index.html\<close>.\<close>

definition entry_rows :: "string \<times> string \<times> string \<Rightarrow> string list" where
  \<open>entry_rows e =
     (case e of (rel_path, array_name, mime_type) \<Rightarrow>
        table_row (''/'' @ rel_path) array_name mime_type
          # (if rel_path = ''index.html'' then [table_row ''/'' array_name mime_type] else []))\<close>

definition table_rows :: "os_env \<Rightarrow> string \<Rightarrow> stream" where
  "table_rows env input_folder =
     concat (map (\<lambda>(root, file_name). entry_rows (file_entry env input_folder root file_name))
               (discovered (walk env input_folder)))"

text \<open>
  The count is written as the C expression
  \<^verbatim>\<open>sizeof(embedded_files) / sizeof(embedded_files[0])\<close> (line 122). For an array of
  \<open>n\<close> elements of \<open>elem_size\<close> bytes each, C gives it this value.
\<close>

definition sizeof_quotient :: "nat \<Rightarrow> nat \<Rightarrow> nat" where
  "sizeof_quotient elem_size n = (n * elem_size) div elem_size"

text \<open>
  Two environments give the same answers about one discovered file: the same
  joined path, and for that path the same relative path, content type and bytes.
\<close>

definition same_answers :: "os_env \<Rightarrow> os_env \<Rightarrow> string \<Rightarrow> string \<Rightarrow> string \<Rightarrow> bool" where
  "same_answers e1 e2 input_folder root file_name =
     (let full_path = path_join e1 root file_name in
      path_join e2 root file_name = full_path
      \<and> relpath e2 full_path input_folder = relpath e1 full_path input_folder
      \<and> guess_type e2 full_path = guess_type e1 full_path
      \<and> read_binary e2 full_path = read_binary e1 full_path)"

subsection \<open>Example environments\<close>

text \<open>A folder \<^verbatim>\<open>build\<close> holding \<^verbatim>\<open>index.html\<close> (three bytes) and an empty
  \<^verbatim>\<open>style.css\<close>.\<close>

definition example_env :: os_env where
  \<open>example_env =
     \<lparr>isdir = (\<lambda>p. p = ''build''),
      walk = (\<lambda>p. if p = ''build'' then [(''build'', [], [''index.html'', ''style.css''])] else []),
      path_join = (\<lambda>a b. a @ ''/'' @ b),
      relpath = (\<lambda>p start. drop (length start + 1) p),
      guess_type = (\<lambda>p. if p = ''build/index.html'' then Some ''text/html''
                         else if p = ''build/style.css'' then Some ''text/css'' else None),
      read_binary = (\<lambda>p. if p = ''build/index.html'' then Some [0x68, 0x69, 0x0A]
                          else if p = ''build/style.css'' then Some [] else None),
      open_for_writing = (\<lambda>p. True)\<rparr>\<close>

text \<open>The same folder seen by a second run, while a file outside of it has
  appeared.\<close>

definition example_env_later :: os_env where
  \<open>example_env_later =
     example_env
       \<lparr>read_binary := (\<lambda>p. if p = ''elsewhere/notes.txt'' then Some [0x21]
                             else read_binary example_env p),
        guess_type := (\<lambda>p. if p = ''elsewhere/notes.txt'' then Some ''text/plain''
                            else guess_type example_env p),
        isdir := (\<lambda>p. p = ''build'' \<or> p = ''elsewhere'')\<rparr>\<close>

text \<open>A folder \<^verbatim>\<open>build\<close> that holds one empty subdirectory and no file.\<close>

definition empty_env :: os_env where
  \<open>empty_env =
     \<lparr>isdir = (\<lambda>p. p = ''build''),
      walk = (\<lambda>p. if p = ''build'' then [(''build'', [''sub''], []), (''build/sub'', [], [])]
                   else []),
      path_join = (\<lambda>a b. a @ ''/'' @ b),
      relpath = (\<lambda>p start. drop (length start + 1) p),
      guess_type = (\<lambda>p. None),
      read_binary = (\<lambda>p. None),
      open_for_writing = (\<lambda>p. True)\<rparr>\<close>

section \<open>Properties of the helpers\<close>

lemma replace_chr_map: "replace_chr old new s = map (\<lambda>c. if c = old then new else c) s"
  by (induction s) simp_all

text \<open>
  Claim C5. The symbol name is the path with every \<^verbatim>\<open>/\<close>, backslash, \<^verbatim>\<open>-\<close> and \<^verbatim>\<open>.\<close>
  replaced by an underscore and every other character kept in place, so none of
  the four characters occurs in it.
\<close>

theorem to_c_identifier_replaces:
  "to_c_identifier path =
     map (\<lambda>c. if c \<in> {CHR ''/'', backslash, CHR ''-'', CHR ''.''} then CHR ''_'' else c) path
   \<and> set (to_c_identifier path) \<inter> {CHR ''/'', backslash, CHR ''-'', CHR ''.''} = {}"
  by (auto simp: to_c_identifier_def replace_chr_map backslash_def)

section \<open>The byte-array writer\<close>

subsection \<open>Digits\<close>

lemma less_16_cases:
  "(n::nat) < 16 \<Longrightarrow> n \<in> {0, 1, 2, 3, 4, 5, 6, 7, 8, 9, 10, 11, 12, 13, 14, 15}"
  by simp arith

lemma hex_val_digit_chr: "n < 16 \<Longrightarrow> hex_val (digit_chr n) = Some n"
  by (drule less_16_cases) (auto simp: hex_val_def digit_chr_def)

lemma unat_byte_div16: "unat (b :: byte) div 16 < 16"
proof -
  have "unat b < 256" using unsigned_less [of b] by simp
  then show ?thesis by simp
qed

lemma less_10_cases: "(n::nat) < 10 \<Longrightarrow> n \<in> {0, 1, 2, 3, 4, 5, 6, 7, 8, 9}"
  by simp arith

lemma digit_chr_decimal:
  "n < 10 \<Longrightarrow> is_digit (digit_chr n) \<and> (of_char (digit_chr n) :: nat) - 48 = n"
  by (drule less_10_cases) (auto simp: digit_chr_def is_digit_def)

lemma str_nat_digits: "list_all is_digit (str_nat n)"
proof (induction n rule: str_nat.induct)
  case (1 n)
  show ?case
  proof (cases "n < 10")
    case True
    then show ?thesis
      using digit_chr_decimal [of n] by (subst str_nat.simps) simp
  next
    case False
    then show ?thesis
      using 1 digit_chr_decimal [of "n mod 10"] by (subst str_nat.simps) simp
  qed
qed

lemma str_nat_nonempty: "str_nat n \<noteq> []"
  by (subst str_nat.simps) simp

lemma str_nat_value: "foldl (\<lambda>a c. 10 * a + (of_char c - 48)) 0 (str_nat n) = n"
proof (induction n rule: str_nat.induct)
  case (1 n)
  show ?case
  proof (cases "n < 10")
    case True
    then show ?thesis
      using digit_chr_decimal [of n] by (subst str_nat.simps) simp
  next
    case False
    then show ?thesis
      using 1 digit_chr_decimal [of "n mod 10"] by (subst str_nat.simps) simp
  qed
qed

lemma read_decimal_str_nat: "read_decimal (str_nat n) = Some n"
  by (simp add: read_decimal_def str_nat_nonempty str_nat_digits str_nat_value)

subsection \<open>Decoding what was encoded\<close>

lemma decode_hex_escape:
  "c_literal_bytes True (hex_escape b @ rest) = map_option ((#) b) (c_literal_bytes True rest)"
  by (simp add: hex_escape_def format_02x_def backslash_def hex_val_digit_chr unat_byte_div16)

lemma decode_escapes:
  "c_literal_bytes True (concat (map hex_escape seg) @ rest)
     = map_option ((@) seg) (c_literal_bytes True rest)"
  by (induction seg) (simp_all add: decode_hex_escape option.map_comp comp_def option.map_ident)

lemma decode_segment_line:
  "c_literal_bytes False (segment_line seg @ rest)
     = map_option ((@) seg) (c_literal_bytes False rest)"
  by (simp add: segment_line_def decode_escapes)

lemma decode_segment_lines:
  "c_literal_bytes False (concat (map segment_line segs)) = Some (concat segs)"
  by (induction segs) (simp_all add: decode_segment_line)

subsection \<open>Runs of 16\<close>

lemma concat_group16: "concat (group16 xs) = xs"
  by (induction xs rule: group16.induct) (subst group16.simps, simp)

lemma group16_short: "length p < 16 \<Longrightarrow> group16 p = (if p = [] then [] else [p])"
  by (subst group16.simps) (simp add: group16.simps [of "[]"])

lemma group16_full: "length p = 16 \<Longrightarrow> group16 (p @ bs) = p # group16 bs"
  by (subst group16.simps) auto

lemma length_group16:
  "map length (group16 xs)
     = replicate (length xs div 16) 16 @ (if length xs mod 16 = 0 then [] else [length xs mod 16])"
proof (induction xs rule: group16.induct)
  case (1 xs)
  show ?case
  proof (cases "xs = []")
    case True
    then show ?thesis by (subst group16.simps) simp
  next
    case False
    note ne = this
    show ?thesis
    proof (cases "length xs < 16")
      case True
      with ne show ?thesis
        by (simp add: group16_short)
    next
      case False
      then have d: "length xs div 16 = Suc ((length xs - 16) div 16)"
        and m: "length xs mod 16 = (length xs - 16) mod 16"
        by (simp_all add: le_div_geq le_mod_geq)
      from False ne 1 show ?thesis
        by (subst group16.simps) (simp add: d m min_def)
    qed
  qed
qed

subsection \<open>The encoding loop\<close>

lemma hex_escape_nonempty: "hex_escape b \<noteq> []"
  by (simp add: hex_escape_def)

text \<open>The invariant of the loop: \<open>p\<close> holds the bytes written to \<open>line\<close> since the
  last flush, and \<open>i mod 16\<close> counts them.\<close>

lemma encode_loop_group16:
  \<open>length p < 16 \<Longrightarrow> i mod 16 = length p \<Longrightarrow>
   (case encode_loop i (''"'' @ concat (map hex_escape p)) f_c bs of
      (line, f) \<Rightarrow> if line \<noteq> ''"'' then f @ [line @ ''"\<newline>''] else f)
     = f_c @ map segment_line (group16 (p @ bs))\<close>
proof (induction bs arbitrary: i p f_c)
  case Nil
  then show ?case
    by (cases p) (simp_all add: group16_short segment_line_def hex_escape_nonempty)
next
  case (Cons b bs)
  show ?case
  proof (cases "(i + 1) mod 16 = 0")
    case True
    with Cons.prems have len: "length (p @ [b]) = 16"
      by (simp add: mod_Suc split: if_splits)
    have "group16 (p @ b # bs) = (p @ [b]) # group16 bs"
      using group16_full [OF len, of bs] by simp
    moreover have \<open>(case encode_loop (i + 1) (''"'' @ concat (map hex_escape []))
             (f_c @ [segment_line (p @ [b])]) bs of
      (line, f) \<Rightarrow> if line \<noteq> ''"'' then f @ [line @ ''"\<newline>''] else f)
     = (f_c @ [segment_line (p @ [b])]) @ map segment_line (group16 ([] @ bs))\<close>
      using True by (intro Cons.IH) simp_all
    ultimately show ?thesis
      using True by (simp add: segment_line_def)
  next
    case False
    with Cons.prems have len: "length (p @ [b]) < 16" "(i + 1) mod 16 = length (p @ [b])"
      by (simp_all add: mod_Suc split: if_splits)
    have \<open>(case encode_loop (i + 1) (''"'' @ concat (map hex_escape (p @ [b]))) f_c bs of
      (line, f) \<Rightarrow> if line \<noteq> ''"'' then f @ [line @ ''"\<newline>''] else f)
     = f_c @ map segment_line (group16 ((p @ [b]) @ bs))\<close>
      using len by (intro Cons.IH)
    then show ?thesis
      using False by simp
  qed
qed

lemma write_literal_group16: "write_literal f_c data = f_c @ map segment_line (group16 data)"
  using encode_loop_group16 [of "[]" 0 f_c data] by (simp add: write_literal_def)

lemma file_to_c_array_writes:
  \<open>read_binary env file_path = Some data \<Longrightarrow>
   file_to_c_array env file_path array_name f_c =
     Inr (f_c @ [''// File: '' @ file_path @ ''\<newline>'',
                 ''const unsigned char '' @ array_name @ ''[] = \<newline>'']
              @ map segment_line (group16 data)
              @ ['';\<newline>'',
                 ''const unsigned int '' @ array_name @ ''_len = '' @ str_nat (length data)
                   @ '';\<newline>\<newline>''])\<close>
  by (simp add: file_to_c_array_def write_literal_group16)


text \<open>
  Claim C1. When the file can be read, \<^verbatim>\<open>file_to_c_array\<close> writes a comment, the
  declaration, the literal, a semicolon and the length constant. Reading the
  literal back as C does gives exactly the bytes of the file, and the numeral of
  the length constant denotes their number.
\<close>

theorem hex_literal_roundtrip:
  assumes \<open>read_binary env file_path = Some data\<close>
  shows \<open>file_to_c_array env file_path array_name f_c =
     Inr (f_c @ [''// File: '' @ file_path @ ''\<newline>'',
                 ''const unsigned char '' @ array_name @ ''[] = \<newline>'']
              @ write_literal [] data
              @ ['';\<newline>'',
                 ''const unsigned int '' @ array_name @ ''_len = '' @ str_nat (length data)
                   @ '';\<newline>\<newline>''])
    \<and> c_literal_bytes False (contents (write_literal [] data)) = Some data
    \<and> read_decimal (str_nat (length data)) = Some (length data)\<close>
  using assms
  by (simp add: file_to_c_array_writes write_literal_group16 contents_def
      decode_segment_lines concat_group16 read_decimal_str_nat)

text \<open>The three bytes of \<^verbatim>\<open>index.html\<close> in the example folder.\<close>

theorem hex_literal_roundtrip_example:
  \<open>read_binary example_env ''build/index.html'' = Some [0x68, 0x69, 0x0A]
   \<and> file_to_c_array example_env ''build/index.html'' ''index_html'' [] =
     Inr [''// File: build/index.html\<newline>'',
          ''const unsigned char index_html[] = \<newline>'',
          ''"'' @ [backslash] @ ''x68'' @ [backslash] @ ''x69'' @ [backslash] @ ''x0a"\<newline>'',
          '';\<newline>'',
          ''const unsigned int index_html_len = 3;\<newline>\<newline>'']
    \<and> c_literal_bytes False
         (''"'' @ [backslash] @ ''x68'' @ [backslash] @ ''x69'' @ [backslash] @ ''x0a"\<newline>'')
        = Some [0x68, 0x69, 0x0A]
    \<and> read_decimal ''3'' = Some 3\<close>
  using hex_literal_roundtrip
    [of example_env "''build/index.html''" "[0x68, 0x69, 0x0A]" "''index_html''" "[]"]
  by (simp add: example_env_def write_literal_def hex_escape_def format_02x_def digit_chr_def
      str_nat.simps contents_def backslash_def)

text \<open>
  The lines of the literal. There is one quoted line per run of 16 bytes: every run
  but possibly the last has exactly 16 bytes, a shorter last run is written only
  when it is not empty, and the runs put together are the file.
\<close>

lemma literal_in_segments_of_16:
  assumes \<open>read_binary env file_path = Some data\<close>
  shows \<open>file_to_c_array env file_path array_name f_c =
     Inr (f_c @ [''// File: '' @ file_path @ ''\<newline>'',
                 ''const unsigned char '' @ array_name @ ''[] = \<newline>'']
              @ map segment_line (group16 data)
              @ ['';\<newline>'',
                 ''const unsigned int '' @ array_name @ ''_len = '' @ str_nat (length data)
                   @ '';\<newline>\<newline>''])
    \<and> concat (group16 data) = data
    \<and> map length (group16 data)
        = replicate (length data div 16) 16
          @ (if length data mod 16 = 0 then [] else [length data mod 16])\<close>
  using assms
  by (simp add: file_to_c_array_writes concat_group16 length_group16)

text \<open>
  Claim C6 says that the escapes are written in quoted segments of 16 bytes, one
  per line, with a shorter last segment only when it is not empty, and that a file
  of zero bytes yields a literal without escape bytes and the length constant 0.
  The grouping is as claimed (the lemma above). For a file of zero bytes the
  script, whose \<^verbatim>\<open>file_to_c_array\<close> is documented as writing one file as a C string
  literal, writes no literal at all: the loop body never runs, the flush of line 71
  is skipped because \<open>line\<close> is still the opening quote, and the declaration is
  followed directly by the semicolon. For the empty \<^verbatim>\<open>style.css\<close> of the example
  folder the text written holds no quote character.
\<close>

theorem zero_byte_file_has_no_literal:
  \<open>read_binary example_env ''build/style.css'' = Some []
   \<and> file_to_c_array example_env ''build/style.css'' ''style_css'' [] =
       Inr [''// File: build/style.css\<newline>'',
            ''const unsigned char style_css[] = \<newline>'',
            '';\<newline>'',
            ''const unsigned int style_css_len = 0;\<newline>\<newline>'']
   \<and> write_literal [] [] = []
   \<and> CHR ''"'' \<notin> set (contents [''// File: build/style.css\<newline>'',
            ''const unsigned char style_css[] = \<newline>'',
            '';\<newline>'',
            ''const unsigned int style_css_len = 0;\<newline>\<newline>''])\<close>
  by (simp add: example_env_def file_to_c_array_def write_literal_def str_nat.simps
      digit_chr_def contents_def)

section \<open>The generation pass\<close>

subsection \<open>What a successful pass has written\<close>

lemma write_table_rows_eq:
  "write_table_rows es f = f @ concat (map entry_rows es)"
  by (induction es f rule: write_table_rows.induct)
     (simp_all add: entry_rows_def table_row_def Let_def)

lemma convert_file_Inr:
  assumes "convert_file env inp root file_name st = Inr st'"
  shows "file_entries st' = file_entries st @ [file_entry env inp root file_name]
       \<and> (\<exists>ws. c_stream st' = c_stream st @ ws)"
proof -
  obtain data where d: "read_binary env (path_join env root file_name) = Some data"
    using assms by (cases "read_binary env (path_join env root file_name)")
      (simp_all add: convert_file_def file_to_c_array_def Let_def)
  show ?thesis
    using assms
    by (auto simp: convert_file_def Let_def file_to_c_array_writes [OF d] file_entry_def)
qed

lemma convert_files_Inr:
  "convert_files env inp root files st = Inr st' \<Longrightarrow>
   file_entries st' = file_entries st @ map (file_entry env inp root) files
     \<and> (\<exists>ws. c_stream st' = c_stream st @ ws)"
proof (induction files arbitrary: st)
  case Nil
  then show ?case by simp
next
  case (Cons f files)
  then obtain st1 where s1: "convert_file env inp root f st = Inr st1"
    and s2: "convert_files env inp root files st1 = Inr st'"
    by (auto split: sum.splits)
  from convert_file_Inr [OF s1] Cons.IH [OF s2] show ?case
    by auto
qed

lemma convert_walk_Inr:
  "convert_walk env inp w st = Inr st' \<Longrightarrow>
   file_entries st' = file_entries st @ map (\<lambda>(root, f). file_entry env inp root f) (discovered w)
     \<and> (\<exists>ws. c_stream st' = c_stream st @ ws)"
proof (induction w arbitrary: st)
  case Nil
  then show ?case by (simp add: discovered_def)
next
  case (Cons t w)
  obtain root dirs files where t: "t = (root, dirs, files)"
    by (cases t)
  with Cons.prems obtain st1 where s1: "convert_files env inp root files st = Inr st1"
    and s2: "convert_walk env inp w st1 = Inr st'"
    by (auto split: sum.splits)
  from convert_files_Inr [OF s1] Cons.IH [OF s2] show ?case
    by (auto simp: t discovered_def comp_def)
qed

lemma generate_Inr:
  assumes "generate env inp = Inr st"
  shows \<open>\<exists>arrays. c_stream st =
            arrays @ [''embedded_file_t embedded_files[] = {\<newline>'']
              @ table_rows env inp
              @ [''};\<newline>\<newline>'',
                 ''int embedded_files_count = sizeof(embedded_files) / sizeof(embedded_files[0]);\<newline>'']\<close>
proof -
  let ?init = \<open>\<lparr>c_stream = [''// Auto-generated embedded files\<newline>\<newline>'',
                              ''#include "embedded_build.h"\<newline>\<newline>''],
                 h_stream = [''// Auto-generated header for embedded files\<newline>\<newline>'',
                             ''typedef struct {\<newline>'',
                             ''    const char *uri;\<newline>'',
                             ''    const unsigned char *data;\<newline>'',
                             ''    unsigned int length;\<newline>'',
                             ''    const char *content_type;\<newline>'',
                             ''} embedded_file_t;\<newline>\<newline>''],
                 file_entries = []\<rparr>\<close>
  from assms obtain st0 where w: "convert_walk env inp (walk env inp) ?init = Inr st0"
    by (auto simp: generate_def split: sum.splits)
  from convert_walk_Inr [OF w] obtain ws where
    e: "file_entries st0 = map (\<lambda>(root, f). file_entry env inp root f) (discovered (walk env inp))"
    and c: "c_stream st0 = c_stream ?init @ ws"
    by auto
  from assms w have \<open>c_stream st =
      c_stream st0 @ [''embedded_file_t embedded_files[] = {\<newline>'']
        @ table_rows env inp
        @ [''};\<newline>\<newline>'',
           ''int embedded_files_count = sizeof(embedded_files) / sizeof(embedded_files[0]);\<newline>'']\<close>
    by (auto simp: generate_def write_table_rows_eq e table_rows_def comp_def split_def)
  with c show ?thesis by simp
qed

lemma main_Success:
  assumes "status (main env prog args) = Success"
  shows "\<exists>inp base st. args = [inp, base] \<and> generate env inp = Inr st
     \<and> artifacts (main env prog args) = [(base @ ''.c'', c_stream st), (base @ ''.h'', h_stream st)]"
proof -
  from assms have "length args = 2"
    by (simp add: main_def Let_def split: if_splits)
  then obtain inp base where a: "args = [inp, base]"
    by (cases args; cases "tl args") auto
  with assms show ?thesis
    by (auto simp: main_def Let_def split: if_splits sum.splits)
qed

lemma main_Success_table:
  assumes "status (main env prog [inp, base]) = Success"
  shows \<open>\<exists>arrays. map_of (artifacts (main env prog [inp, base])) (base @ ''.c'')
           = Some (arrays @ [''embedded_file_t embedded_files[] = {\<newline>'']
                     @ table_rows env inp
                     @ [''};\<newline>\<newline>'',
                        ''int embedded_files_count = sizeof(embedded_files) / sizeof(embedded_files[0]);\<newline>''])\<close>
proof -
  from main_Success [OF assms] obtain st where g: "generate env inp = Inr st"
    and a: "artifacts (main env prog [inp, base]) = [(base @ ''.c'', c_stream st), (base @ ''.h'', h_stream st)]"
    by auto
  from generate_Inr [OF g] a show ?thesis
    by auto
qed

lemma length_entry_rows:
  "length (concat (map (\<lambda>(root, file_name). entry_rows (file_entry env inp root file_name)) fs))
     = length fs + length (filter (\<lambda>(root, file_name). fst (file_entry env inp root file_name) = ''index.html'') fs)"
  by (induction fs) (auto simp: entry_rows_def split: prod.splits)

lemma sizeof_quotient_Suc: "sizeof_quotient (Suc s) n = n"
  unfolding sizeof_quotient_def by (rule nonzero_mult_div_cancel_right) simp

lemma example_Success:
  "status (main example_env ''folder_to_carray.py'' [''build'', ''out'']) = Success"
  by code_simp

subsection \<open>The table\<close>

text \<open>
  Claim C2. In a run that completes, the definitions file ends with the table: its
  opening line, the rows, the closing line and the count. There is one row per
  discovered file and one more for each discovered file whose relative path is
  \<^verbatim>\<open>index.html\<close>. The count is the quotient of the size of the table by the size of
  one element, which for elements of any positive size is the number of rows.
\<close>

theorem table_row_count:
  assumes "status (main env prog [input_folder, output_base]) = Success"
  shows \<open>(\<exists>arrays. map_of (artifacts (main env prog [input_folder, output_base])) (output_base @ ''.c'')
           = Some (arrays @ [''embedded_file_t embedded_files[] = {\<newline>'']
                     @ table_rows env input_folder
                     @ [''};\<newline>\<newline>'',
                        ''int embedded_files_count = sizeof(embedded_files) / sizeof(embedded_files[0]);\<newline>'']))
     \<and> length (table_rows env input_folder)
         = length (discovered (walk env input_folder))
           + length (filter (\<lambda>(root, file_name).
                               fst (file_entry env input_folder root file_name) = ''index.html'')
                       (discovered (walk env input_folder)))
     \<and> sizeof_quotient (Suc s) (length (table_rows env input_folder))
         = length (table_rows env input_folder)\<close>
  using main_Success_table [OF assms]
  by (simp add: table_rows_def length_entry_rows sizeof_quotient_Suc)

text \<open>The example folder: two files, one of them \<^verbatim>\<open>index.html\<close>, three rows.\<close>

theorem table_row_count_example:
  \<open>status (main example_env ''folder_to_carray.py'' [''build'', ''out'']) = Success
   \<and> length (discovered (walk example_env ''build'')) = 2
   \<and> length (table_rows example_env ''build'') = 3
   \<and> sizeof_quotient 32 (length (table_rows example_env ''build'')) = 3\<close>
proof -
  have d: "discovered (walk example_env ''build'') = [(''build'', ''index.html''), (''build'', ''style.css'')]"
    by (simp add: example_env_def discovered_def)
  have f: "file_entry example_env ''build'' ''build'' ''index.html'' = (''index.html'', ''index_html'', ''text/html'')"
    "file_entry example_env ''build'' ''build'' ''style.css'' = (''style.css'', ''style_css'', ''text/css'')"
    by (simp_all add: example_env_def file_entry_def to_c_identifier_def guess_mime_type_def backslash_def)
  from table_row_count [OF example_Success, of 31] show ?thesis
    by (simp add: example_Success d f sizeof_quotient_def)
qed

lemma replace_backslash_id:
  "CHR ''/'' \<notin> set (replace_chr backslash (CHR ''/'') s) \<Longrightarrow> replace_chr backslash (CHR ''/'') s = s"
  by (induction s) (auto split: if_splits)

lemma rel_path_index:
  "(replace_chr backslash (CHR ''/'') s = ''index.html'') = (s = ''index.html'')"
proof
  assume a: "replace_chr backslash (CHR ''/'') s = ''index.html''"
  then have "CHR ''/'' \<notin> set (replace_chr backslash (CHR ''/'') s)" by simp
  from replace_backslash_id [OF this] a show "s = ''index.html''" by simp
next
  assume "s = ''index.html''"
  then show "replace_chr backslash (CHR ''/'') s = ''index.html''"
    by (simp add: backslash_def)
qed

text \<open>
  Claim C3. In a run that completes, every discovered file contributes its own row
  \<^verbatim>\<open>/<relative path>\<close>, followed by a row for \<^verbatim>\<open>/\<close> exactly when its relative path
  is \<^verbatim>\<open>index.html\<close>; the alias row names the same array, the same length and the
  same content type. The relative path of a file is \<^verbatim>\<open>index.html\<close> exactly when
  \<^verbatim>\<open>os.path.relpath\<close> returns that string for it.
\<close>

theorem index_html_alias_row:
  assumes "status (main env prog [input_folder, output_base]) = Success"
  shows \<open>(\<exists>arrays. map_of (artifacts (main env prog [input_folder, output_base])) (output_base @ ''.c'')
           = Some (arrays @ [''embedded_file_t embedded_files[] = {\<newline>'']
                     @ concat (map (\<lambda>(root, file_name).
                          case file_entry env input_folder root file_name of
                            (rel_path, array_name, mime_type) \<Rightarrow>
                              table_row (''/'' @ rel_path) array_name mime_type
                                # (if rel_path = ''index.html''
                                   then [table_row ''/'' array_name mime_type] else []))
                        (discovered (walk env input_folder)))
                     @ [''};\<newline>\<newline>'',
                        ''int embedded_files_count = sizeof(embedded_files) / sizeof(embedded_files[0]);\<newline>'']))
     \<and> (fst (file_entry env input_folder root file_name) = ''index.html'')
         = (relpath env (path_join env root file_name) input_folder = ''index.html'')\<close>
  using main_Success_table [OF assms]
  by (simp add: table_rows_def entry_rows_def file_entry_def rel_path_index Let_def)

text \<open>The example folder gives the three rows \<^verbatim>\<open>/index.html\<close>, \<^verbatim>\<open>/\<close> and
  \<^verbatim>\<open>/style.css\<close>, the first two with the same array and length.\<close>

theorem index_html_alias_row_example:
  \<open>status (main example_env ''folder_to_carray.py'' [''build'', ''out'']) = Success
   \<and> (\<exists>arrays. map_of (artifacts (main example_env ''folder_to_carray.py'' [''build'', ''out''])) ''out.c''
           = Some (arrays @
                [''embedded_file_t embedded_files[] = {\<newline>'',
                 ''    {"/index.html", index_html, index_html_len, "text/html"},\<newline>'',
                 ''    {"/", index_html, index_html_len, "text/html"},\<newline>'',
                 ''    {"/style.css", style_css, style_css_len, "text/css"},\<newline>'',
                 ''};\<newline>\<newline>'',
                 ''int embedded_files_count = sizeof(embedded_files) / sizeof(embedded_files[0]);\<newline>'']))\<close>
proof -
  have e: \<open>concat (map (\<lambda>(root, file_name).
                          case file_entry example_env ''build'' root file_name of
                            (rel_path, array_name, mime_type) \<Rightarrow>
                              table_row (''/'' @ rel_path) array_name mime_type
                                # (if rel_path = ''index.html''
                                   then [table_row ''/'' array_name mime_type] else []))
                        (discovered (walk example_env ''build'')))
     = [''    {"/index.html", index_html, index_html_len, "text/html"},\<newline>'',
                 ''    {"/", index_html, index_html_len, "text/html"},\<newline>'',
                 ''    {"/style.css", style_css, style_css_len, "text/css"},\<newline>'']\<close>
    by (simp add: example_env_def discovered_def file_entry_def table_row_def
        to_c_identifier_def guess_mime_type_def backslash_def)
  from index_html_alias_row [OF example_Success, of "[]" "[]"] show ?thesis
    unfolding e by (simp add: example_Success)
qed

subsection \<open>The include line\<close>

text \<open>
  Claim C4 says that the definitions file \<^verbatim>\<open><output_base>.c\<close> includes the
  declarations file \<^verbatim>\<open><output_base>.h\<close>. Line 94 writes the fixed name
  \<^verbatim>\<open>embedded_build.h\<close> instead: run on the folder without files with the output base
  \<^verbatim>\<open>out\<close>, the script writes \<^verbatim>\<open>out.c\<close> and \<^verbatim>\<open>out.h\<close>, and \<^verbatim>\<open>out.c\<close> includes
  \<^verbatim>\<open>embedded_build.h\<close>.
\<close>

theorem include_names_embedded_build_h:
  \<open>artifacts (main empty_env ''folder_to_carray.py'' [''build'', ''out'']) =
     [(''out.c'',
       [''// Auto-generated embedded files\<newline>\<newline>'',
        ''#include "embedded_build.h"\<newline>\<newline>'',
        ''embedded_file_t embedded_files[] = {\<newline>'',
        ''};\<newline>\<newline>'',
        ''int embedded_files_count = sizeof(embedded_files) / sizeof(embedded_files[0]);\<newline>'']),
      (''out.h'',
       [''// Auto-generated header for embedded files\<newline>\<newline>'',
        ''typedef struct {\<newline>'',
        ''    const char *uri;\<newline>'',
        ''    const unsigned char *data;\<newline>'',
        ''    unsigned int length;\<newline>'',
        ''    const char *content_type;\<newline>'',
        ''} embedded_file_t;\<newline>\<newline>'',
        ''\<newline>extern embedded_file_t embedded_files[];\<newline>'',
        ''extern int embedded_files_count;\<newline>''])]\<close>
  by (simp add: main_def generate_def empty_env_def)

section \<open>Early exits\<close>

text \<open>
  Claim C7. With any number of arguments other than two the script prints the
  usage line, exits with status 1 and opens no file for writing.
\<close>

theorem wrong_argument_count_exits:
  \<open>length args \<noteq> 2 \<Longrightarrow>
   main env prog args =
     \<lparr>status = SysExit 1,
      stdout = [''Usage: '' @ prog @ '' <input_folder> <output_base>\<newline>''],
      artifacts = []\<rparr>\<close>
  by (simp add: main_def)

text \<open>No argument, one argument, three arguments.\<close>

theorem wrong_argument_count_examples:
  \<open>main example_env ''folder_to_carray.py'' [] =
     \<lparr>status = SysExit 1,
      stdout = [''Usage: folder_to_carray.py <input_folder> <output_base>\<newline>''],
      artifacts = []\<rparr>
   \<and> main example_env ''folder_to_carray.py'' [''build''] =
     \<lparr>status = SysExit 1,
      stdout = [''Usage: folder_to_carray.py <input_folder> <output_base>\<newline>''],
      artifacts = []\<rparr>
   \<and> main example_env ''folder_to_carray.py'' [''build'', ''out'', ''extra''] =
     \<lparr>status = SysExit 1,
      stdout = [''Usage: folder_to_carray.py <input_folder> <output_base>\<newline>''],
      artifacts = []\<rparr>\<close>
  using wrong_argument_count_exits [of "[]" example_env "''folder_to_carray.py''"]
    wrong_argument_count_exits [of "[''build'']" example_env "''folder_to_carray.py''"]
    wrong_argument_count_exits [of "[''build'', ''out'', ''extra'']" example_env "''folder_to_carray.py''"]
  by simp

text \<open>
  Claim C8. When the input folder is not a directory the script prints the error
  line, exits with status 1 and opens no file for writing.
\<close>

theorem missing_folder_exits:
  \<open>\<not> isdir env input_folder \<Longrightarrow>
   main env prog [input_folder, output_base] =
     \<lparr>status = SysExit 1,
      stdout = [''Error: Folder '' @ [CHR 0x27] @ input_folder @ [CHR 0x27] @ '' not found\<newline>''],
      artifacts = []\<rparr>\<close>
  by (simp add: main_def)

theorem missing_folder_example:
  \<open>\<not> isdir example_env ''missing''
   \<and> main example_env ''folder_to_carray.py'' [''missing'', ''out''] =
     \<lparr>status = SysExit 1,
      stdout = [''Error: Folder 'missing' not found\<newline>''],
      artifacts = []\<rparr>\<close>
  using missing_folder_exits [of example_env "''missing''" "''folder_to_carray.py''" "''out''"]
  by (simp add: example_env_def)

section \<open>A folder without files\<close>

lemma convert_walk_no_files:
  "\<forall>t \<in> set w. snd (snd t) = [] \<Longrightarrow> convert_walk env inp w st = Inr st"
  by (induction w arbitrary: st) auto

text \<open>
  Claim C10. When the walk finds no file at all and both output files can be
  opened, the run completes: it writes both files, the table has no row and is
  followed by the count, and the success line is printed.
\<close>

theorem empty_directory_completes:
  assumes "isdir env input_folder"
    and "open_for_writing env (output_base @ ''.c'')"
    and "open_for_writing env (output_base @ ''.h'')"
    and "\<forall>t \<in> set (walk env input_folder). snd (snd t) = []"
  shows \<open>main env prog [input_folder, output_base] =
     \<lparr>status = Success,
      stdout = [[CHR 0xE2, CHR 0x9C, CHR 0x85] @ '' Generated '' @ output_base @ ''.c and ''
                  @ output_base @ ''.h\<newline>''],
      artifacts =
        [(output_base @ ''.c'',
          [''// Auto-generated embedded files\<newline>\<newline>'',
           ''#include "embedded_build.h"\<newline>\<newline>'',
           ''embedded_file_t embedded_files[] = {\<newline>'',
           ''};\<newline>\<newline>'',
           ''int embedded_files_count = sizeof(embedded_files) / sizeof(embedded_files[0]);\<newline>'']),
         (output_base @ ''.h'',
          [''// Auto-generated header for embedded files\<newline>\<newline>'',
           ''typedef struct {\<newline>'',
           ''    const char *uri;\<newline>'',
           ''    const unsigned char *data;\<newline>'',
           ''    unsigned int length;\<newline>'',
           ''    const char *content_type;\<newline>'',
           ''} embedded_file_t;\<newline>\<newline>'',
           ''\<newline>extern embedded_file_t embedded_files[];\<newline>'',
           ''extern int embedded_files_count;\<newline>''])]\<rparr>\<close>
  using assms(1-3) by (simp add: main_def generate_def convert_walk_no_files [OF assms(4)])

text \<open>The folder with one empty subdirectory.\<close>

theorem empty_directory_example:
  \<open>isdir empty_env ''build''
   \<and> walk empty_env ''build'' = [(''build'', [''sub''], []), (''build/sub'', [], [])]
   \<and> status (main empty_env ''folder_to_carray.py'' [''build'', ''out'']) = Success
   \<and> stdout (main empty_env ''folder_to_carray.py'' [''build'', ''out''])
       = [[CHR 0xE2, CHR 0x9C, CHR 0x85] @ '' Generated out.c and out.h\<newline>'']
   \<and> map fst (artifacts (main empty_env ''folder_to_carray.py'' [''build'', ''out'']))
       = [''out.c'', ''out.h'']\<close>
  using empty_directory_completes [of empty_env "''build''" "''out''" "''folder_to_carray.py''"]
  by (simp add: empty_env_def)

section \<open>Two runs on the same input\<close>

lemma convert_file_same:
  "same_answers e1 e2 inp root f \<Longrightarrow> convert_file e2 inp root f st = convert_file e1 inp root f st"
  by (simp add: same_answers_def convert_file_def file_to_c_array_def guess_mime_type_def Let_def
      split: option.splits sum.splits)

lemma convert_files_same:
  "\<forall>f \<in> set files. same_answers e1 e2 inp root f \<Longrightarrow>
   convert_files e2 inp root files st = convert_files e1 inp root files st"
proof (induction files arbitrary: st)
  case Nil
  then show ?case by simp
next
  case (Cons f files)
  then have "convert_file e2 inp root f st = convert_file e1 inp root f st"
    by (simp add: convert_file_same)
  with Cons show ?case
    by (cases "convert_file e1 inp root f st") simp_all
qed

lemma convert_walk_same:
  "\<forall>(root, dirs, files) \<in> set w. \<forall>f \<in> set files. same_answers e1 e2 inp root f \<Longrightarrow>
   convert_walk e2 inp w st = convert_walk e1 inp w st"
proof (induction w arbitrary: st)
  case Nil
  then show ?case by simp
next
  case (Cons t w)
  obtain root dirs files where t: "t = (root, dirs, files)" by (cases t)
  from Cons.prems have a: "\<forall>f \<in> set files. same_answers e1 e2 inp root f"
    and b: "\<forall>(root, dirs, files) \<in> set w. \<forall>f \<in> set files. same_answers e1 e2 inp root f"
    by (auto simp: t)
  show ?case
    by (cases "convert_files e1 inp root files st")
      (simp_all add: t convert_files_same [OF a] Cons.IH [OF b])
qed

lemma generate_same:
  assumes "walk e2 inp = walk e1 inp"
    and "\<forall>(root, dirs, files) \<in> set (walk e1 inp). \<forall>f \<in> set files. same_answers e1 e2 inp root f"
  shows "generate e2 inp = generate e1 inp"
  using assms(1) convert_walk_same [OF assms(2)] by (simp add: generate_def)

text \<open>
  Claim C9. Two runs with the same arguments end in the same way and leave the
  same two files, byte for byte, whenever the environment answers alike in both:
  the folder is a directory in both or in neither, the output files can be opened
  in both or in neither, the walk yields the same triples in the same order, and
  every discovered file has the same path, relative path, content type and
  bytes. Nothing else reaches the output.
\<close>

theorem same_inputs_same_artifacts:
  assumes "isdir e2 input_folder = isdir e1 input_folder"
    and "open_for_writing e2 (output_base @ ''.c'') = open_for_writing e1 (output_base @ ''.c'')"
    and "open_for_writing e2 (output_base @ ''.h'') = open_for_writing e1 (output_base @ ''.h'')"
    and "walk e2 input_folder = walk e1 input_folder"
    and "\<forall>(root, dirs, files) \<in> set (walk e1 input_folder).
           \<forall>file_name \<in> set files. same_answers e1 e2 input_folder root file_name"
  shows "main e2 prog [input_folder, output_base] = main e1 prog [input_folder, output_base]
    \<and> map (\<lambda>(name, f). (name, contents f)) (artifacts (main e2 prog [input_folder, output_base]))
        = map (\<lambda>(name, f). (name, contents f)) (artifacts (main e1 prog [input_folder, output_base]))"
proof -
  have "main e2 prog [input_folder, output_base] = main e1 prog [input_folder, output_base]"
    using assms(1-3) generate_same [OF assms(4,5)] by (simp add: main_def Let_def)
  then show ?thesis by simp
qed

text \<open>The example folder, and the same folder after a file has appeared elsewhere.\<close>

theorem same_inputs_same_artifacts_example:
  \<open>read_binary example_env_later ''elsewhere/notes.txt'' \<noteq> read_binary example_env ''elsewhere/notes.txt''
   \<and> main example_env_later ''folder_to_carray.py'' [''build'', ''out'']
       = main example_env ''folder_to_carray.py'' [''build'', ''out'']\<close>
proof -
  have "main example_env_later ''folder_to_carray.py'' [''build'', ''out'']
       = main example_env ''folder_to_carray.py'' [''build'', ''out'']
     \<and> map (\<lambda>(name, f). (name, contents f))
          (artifacts (main example_env_later ''folder_to_carray.py'' [''build'', ''out'']))
       = map (\<lambda>(name, f). (name, contents f))
          (artifacts (main example_env ''folder_to_carray.py'' [''build'', ''out'']))"
    by (rule same_inputs_same_artifacts)
      (simp_all add: example_env_later_def example_env_def same_answers_def)
  then have eq: "main example_env_later ''folder_to_carray.py'' [''build'', ''out'']
       = main example_env ''folder_to_carray.py'' [''build'', ''out'']"
    by (rule conjunct1)
  have ne: "read_binary example_env_later ''elsewhere/notes.txt''
       \<noteq> read_binary example_env ''elsewhere/notes.txt''"
    by (simp add: example_env_later_def example_env_def)
  from ne eq show ?thesis
    by (rule conjI)
qed

end
